theory Spec2Isabelle
  imports Main "HOL-Library.Word" "HOL-Library.AList"
begin

section \<open>Machine types\<close>

text \<open>
  The source is CUDA C++ (\<^verbatim>\<open>kernelforpictures.cpp\<close>). An \<^verbatim>\<open>unsigned char\<close> is an 8-bit
  word. An \<^verbatim>\<open>int\<close> and an \<^verbatim>\<open>unsigned int\<close> are both 32-bit words: \<open>+\<close> and \<open>*\<close> wrap
  modulo \<open>2 ^ 32\<close> (what the device and the host compiler do in practice for the signed
  type as well), \<open>sint\<close> reads the value of an \<^verbatim>\<open>int\<close>, \<open>unat\<close> that of an
  \<^verbatim>\<open>unsigned int\<close>, \<open><s\<close> is the comparison of two \<^verbatim>\<open>int\<close>s and \<open>div\<close> the division of
  two \<^verbatim>\<open>unsigned int\<close>s. Addresses of host and of device memory are natural numbers.
\<close>

type_synonym byte = "8 word"
type_synonym cint = "32 word"
type_synonym cuint = "32 word"
type_synonym addr = nat

text \<open>
  The conversion of an \<^verbatim>\<open>int\<close> argument to a \<^verbatim>\<open>size_t\<close> parameter (64 bits): the value
  is sign-extended, so a negative \<^verbatim>\<open>int\<close> becomes a count just below \<open>2 ^ 64\<close>.
\<close>

definition to_size_t :: "cint \<Rightarrow> nat" where
  "to_size_t n = unat (scast n :: 64 word)"

section \<open>Host memory\<close>

type_synonym host_mem = "addr \<Rightarrow> byte"

definition host_read :: "host_mem \<Rightarrow> addr \<Rightarrow> nat \<Rightarrow> byte list" where
  "host_read hm p n = map hm [p ..< p + n]"

definition host_write :: "host_mem \<Rightarrow> addr \<Rightarrow> byte list \<Rightarrow> host_mem" where
  "host_write hm p bs = (\<lambda>a. if p \<le> a \<and> a < p + length bs then bs ! (a - p) else hm a)"

section \<open>The device runtime\<close>

text \<open>
  The CUDA runtime is not part of the repository; the program only calls it. It is
  modelled by the state of one device:
  \<^item> \<open>allocs\<close>: the live allocations, each a base address with its contents;
  \<^item> \<open>capacity\<close>: the bytes of device memory;
  \<^item> \<open>fresh_byte\<close>: what newly allocated (uninitialised) device memory holds;
  \<^item> \<open>faults\<close>: which runtime calls fail for a reason of the environment (the k-th
    call of the log fails when \<open>faults d k\<close>);
  \<^item> \<open>poisoned\<close>: a kernel has made an illegal access; the error is sticky, and every
    later runtime call fails, \<^verbatim>\<open>cudaFree\<close> included;
  \<^item> \<open>calls\<close>: the log of the runtime calls made so far, each with the
    \<^verbatim>\<open>cudaError_t\<close> it returned.
  A device pointer is valid when it is the base address of a live allocation (the
  program never forms any other). Every runtime call can fail, and a call that fails
  changes nothing but the log.
\<close>

datatype cudaError =
    cudaSuccess
  | cudaErrorInvalidValue
  | cudaErrorMemoryAllocation
  | cudaErrorInvalidConfiguration
  | cudaErrorIllegalAddress
  | cudaErrorUnknown

datatype cudaMemcpyKind = cudaMemcpyHostToDevice | cudaMemcpyDeviceToHost

type_synonym dim3 = "cuint \<times> cuint"

type_synonym dev_mem = "(addr \<times> byte list) list"

datatype api_call =
    Malloc nat
  | Memcpy addr addr nat cudaMemcpyKind
  | Launch dim3 dim3 addr addr cint cint
  | Free addr

record device =
  allocs :: dev_mem
  capacity :: nat
  fresh_byte :: byte
  faults :: "nat \<Rightarrow> bool"
  poisoned :: bool
  calls :: "(api_call \<times> cudaError) list"

definition used :: "device \<Rightarrow> nat" where
  "used d = sum_list (map (\<lambda>e. length (snd e)) (allocs d))"

definition fresh_addr :: "device \<Rightarrow> addr" where
  "fresh_addr d = Suc (Max (set (0 # map fst (allocs d))))"

definition faulty :: "device \<Rightarrow> bool" where
  "faulty d \<longleftrightarrow> poisoned d \<or> faults d (length (calls d))"

definition logged :: "api_call \<Rightarrow> cudaError \<Rightarrow> device \<Rightarrow> device" where
  "logged c e d = d\<lparr>calls := calls d @ [(c, e)]\<rparr>"

text \<open>
  \<^verbatim>\<open>cudaMalloc(&p, n)\<close>: \<open>p\<close> is the value the pointer variable holds before the call;
  a failed call leaves it as it is.
\<close>

definition cudaMalloc :: "addr \<Rightarrow> nat \<Rightarrow> device \<Rightarrow> cudaError \<times> addr \<times> device" where
  "cudaMalloc p n d =
     (if faulty d \<or> capacity d < used d + n
      then (cudaErrorMemoryAllocation, p, logged (Malloc n) cudaErrorMemoryAllocation d)
      else (cudaSuccess, fresh_addr d,
            logged (Malloc n) cudaSuccess
              (d\<lparr>allocs := (fresh_addr d, replicate n (fresh_byte d)) # allocs d\<rparr>)))"

text \<open>\<^verbatim>\<open>cudaMemcpy(dst, src, count, kind)\<close>, blocking, for the two kinds the program uses.\<close>

definition cudaMemcpy ::
  "addr \<Rightarrow> addr \<Rightarrow> nat \<Rightarrow> cudaMemcpyKind \<Rightarrow> host_mem \<times> device
     \<Rightarrow> cudaError \<times> host_mem \<times> device" where
  "cudaMemcpy dst src n kind s =
     (let (hm, d) = s; c = Memcpy dst src n kind in
      case kind of
        cudaMemcpyHostToDevice \<Rightarrow>
          (case map_of (allocs d) dst of
             None \<Rightarrow> (cudaErrorInvalidValue, hm, logged c cudaErrorInvalidValue d)
           | Some bs \<Rightarrow>
               if faulty d \<or> length bs < n
               then (cudaErrorInvalidValue, hm, logged c cudaErrorInvalidValue d)
               else (cudaSuccess, hm,
                     logged c cudaSuccess
                       (d\<lparr>allocs := AList.update dst (host_read hm src n @ drop n bs) (allocs d)\<rparr>)))
      | cudaMemcpyDeviceToHost \<Rightarrow>
          (case map_of (allocs d) src of
             None \<Rightarrow> (cudaErrorInvalidValue, hm, logged c cudaErrorInvalidValue d)
           | Some bs \<Rightarrow>
               if faulty d \<or> length bs < n
               then (cudaErrorInvalidValue, hm, logged c cudaErrorInvalidValue d)
               else (cudaSuccess, host_write hm dst (take n bs), logged c cudaSuccess d)))"

text \<open>
  \<^verbatim>\<open>cudaFree(p)\<close>: it can fail like every other call, and then releases nothing; freeing
  the null pointer is a successful no-op.
\<close>

definition cudaFree :: "addr \<Rightarrow> device \<Rightarrow> cudaError \<times> device" where
  "cudaFree p d =
     (if faulty d then (cudaErrorInvalidValue, logged (Free p) cudaErrorInvalidValue d)
      else if p = 0 then (cudaSuccess, logged (Free p) cudaSuccess d)
      else case map_of (allocs d) p of
        None \<Rightarrow> (cudaErrorInvalidValue, logged (Free p) cudaErrorInvalidValue d)
      | Some bs \<Rightarrow> (cudaSuccess, logged (Free p) cudaSuccess (d\<lparr>allocs := AList.delete p (allocs d)\<rparr>)))"

section \<open>Device memory accesses of a kernel\<close>

text \<open>
  \<open>p[i]\<close> on the device, \<open>p\<close> a device pointer and \<open>i\<close> an \<^verbatim>\<open>int\<close>: an access outside
  the allocation (or through an invalid pointer) is an illegal address, \<open>None\<close>.
\<close>

definition dev_read :: "dev_mem \<Rightarrow> addr \<Rightarrow> cint \<Rightarrow> byte option" where
  "dev_read m p i =
     (case map_of m p of
        None \<Rightarrow> None
      | Some bs \<Rightarrow> if 0 \<le> sint i \<and> nat (sint i) < length bs then Some (bs ! nat (sint i)) else None)"

definition dev_write :: "dev_mem \<Rightarrow> addr \<Rightarrow> cint \<Rightarrow> byte \<Rightarrow> dev_mem option" where
  "dev_write m p i v =
     (case map_of m p of
        None \<Rightarrow> None
      | Some bs \<Rightarrow>
          if 0 \<le> sint i \<and> nat (sint i) < length bs
          then Some (AList.update p (bs[nat (sint i) := v]) m) else None)"

text \<open>The statement \<^verbatim>\<open>output[i] = input[i];\<close>\<close>

definition copy_byte :: "addr \<Rightarrow> addr \<Rightarrow> cint \<Rightarrow> dev_mem \<Rightarrow> dev_mem option" where
  "copy_byte input output i m =
     (case dev_read m input i of None \<Rightarrow> None | Some v \<Rightarrow> dev_write m output i v)"

text \<open>Running steps one after the other, stopping at the first illegal access.\<close>

fun run_all :: "('a \<Rightarrow> 's \<Rightarrow> 's option) \<Rightarrow> 'a list \<Rightarrow> 's \<Rightarrow> 's option" where
  "run_all f [] s = Some s"
| "run_all f (x # xs) s = (case f x s of None \<Rightarrow> None | Some s' \<Rightarrow> run_all f xs s')"

section \<open>The kernel\<close>

text \<open>
  A thread is identified by \<open>(blockIdx.x, blockIdx.y, threadIdx.x, threadIdx.y)\<close>.
  \<open>thread_x\<close> and \<open>thread_y\<close> are lines 6 and 7 of the source: the arithmetic is that of
  \<^verbatim>\<open>unsigned int\<close>, the result is stored in an \<^verbatim>\<open>int\<close>.
\<close>

type_synonym thread = "nat \<times> nat \<times> nat \<times> nat"

definition thread_x :: "dim3 \<Rightarrow> thread \<Rightarrow> cint" where
  "thread_x blockDim t = (case t of (bx, by, tx, ty) \<Rightarrow> of_nat bx * fst blockDim + of_nat tx)"

definition thread_y :: "dim3 \<Rightarrow> thread \<Rightarrow> cint" where
  "thread_y blockDim t = (case t of (bx, by, tx, ty) \<Rightarrow> of_nat by * snd blockDim + of_nat ty)"

text \<open>The indices of lines 10 to 12, in the order of the statements; none outside the guard.\<close>

definition kernel_indices :: "cint \<Rightarrow> cint \<Rightarrow> dim3 \<Rightarrow> thread \<Rightarrow> cint list" where
  "kernel_indices width height blockDim t =
     (let x = thread_x blockDim t; y = thread_y blockDim t in
      if x <s width \<and> y <s height
      then [3 * (y * width + x) + 0, 3 * (y * width + x) + 1, 3 * (y * width + x) + 2]
      else [])"

definition processImageKernel ::
  "addr \<Rightarrow> addr \<Rightarrow> cint \<Rightarrow> cint \<Rightarrow> dim3 \<Rightarrow> thread \<Rightarrow> dev_mem \<Rightarrow> dev_mem option" where
  "processImageKernel input output width height blockDim t m =
     (let x = thread_x blockDim t; y = thread_y blockDim t in
      if x <s width \<and> y <s height then
        (case copy_byte input output (3 * (y * width + x) + 0) m of
           None \<Rightarrow> None
         | Some m1 \<Rightarrow>
             (case copy_byte input output (3 * (y * width + x) + 1) m1 of
                None \<Rightarrow> None
              | Some m2 \<Rightarrow> copy_byte input output (3 * (y * width + x) + 2) m2))
      else Some m)"

section \<open>The launch\<close>

text \<open>
  All threads of the grid: every block index below the grid dimensions with every
  thread index below the block dimensions.
\<close>

definition grid_threads :: "dim3 \<Rightarrow> dim3 \<Rightarrow> thread list" where
  "grid_threads dimGrid dimBlock =
     map (\<lambda>(by, bx, ty, tx). (bx, by, tx, ty))
       (List.product [0 ..< unat (snd dimGrid)]
         (List.product [0 ..< unat (fst dimGrid)]
           (List.product [0 ..< unat (snd dimBlock)] [0 ..< unat (fst dimBlock)])))"

text \<open>
  \<^verbatim>\<open>processImageKernel<<<dimGrid, dimBlock>>>(d_input, d_output, width, height)\<close>. The
  threads do not communicate; they are run one after the other. A grid with an empty
  dimension is an invalid configuration; an illegal access of any thread fails the launch
  and poisons the device.
\<close>

definition launch_processImageKernel ::
  "dim3 \<Rightarrow> dim3 \<Rightarrow> addr \<Rightarrow> addr \<Rightarrow> cint \<Rightarrow> cint \<Rightarrow> device \<Rightarrow> cudaError \<times> device" where
  "launch_processImageKernel dimGrid dimBlock d_input d_output width height d =
     (let c = Launch dimGrid dimBlock d_input d_output width height in
      if faulty d \<or> fst dimGrid = 0 \<or> snd dimGrid = 0
      then (cudaErrorInvalidConfiguration, logged c cudaErrorInvalidConfiguration d)
      else case run_all (processImageKernel d_input d_output width height dimBlock)
                  (grid_threads dimGrid dimBlock) (allocs d) of
        None \<Rightarrow> (cudaErrorIllegalAddress, logged c cudaErrorIllegalAddress (d\<lparr>poisoned := True\<rparr>))
      | Some m \<Rightarrow> (cudaSuccess, logged c cudaSuccess (d\<lparr>allocs := m\<rparr>)))"

section \<open>The dispatch\<close>

text \<open>
  \<open>processImage\<close>, lines 16 to 33. \<open>uninit\<close> is what the two uninitialised pointer
  variables \<open>d_input\<close> and \<open>d_output\<close> of line 18 hold. Every \<^verbatim>\<open>cudaError_t\<close> the runtime
  returns is dropped, and the function returns nothing: the result is the host memory
  and the device after the call. \<open>byte_count\<close> is the argument \<^verbatim>\<open>width * height * 3\<close> of
  lines 19, 20, 22 and 29: an \<^verbatim>\<open>int\<close> expression passed to a \<^verbatim>\<open>size_t\<close> parameter.
\<close>

definition byte_count :: "cint \<Rightarrow> cint \<Rightarrow> nat" where
  "byte_count width height = to_size_t (width * height * 3)"

text \<open>Lines 24 to 26: \<^verbatim>\<open>dim3 dimBlock(16, 16)\<close> and the grid computed from it.\<close>

definition dimBlock :: dim3 where
  "dimBlock = (16, 16)"

definition dimGrid :: "cint \<Rightarrow> cint \<Rightarrow> dim3" where
  "dimGrid width height =
     ((width + fst dimBlock - 1) div fst dimBlock, (height + snd dimBlock - 1) div snd dimBlock)"

definition processImage ::
  "addr \<Rightarrow> addr \<Rightarrow> cint \<Rightarrow> cint \<Rightarrow> addr \<times> addr \<Rightarrow> host_mem \<times> device \<Rightarrow> host_mem \<times> device" where
  "processImage input output width height uninit s =
     (let (hm, d) = s;
          (e1, d_input, d1) = cudaMalloc (fst uninit) (byte_count width height) d;
          (e2, d_output, d2) = cudaMalloc (snd uninit) (byte_count width height) d1;
          (e3, hm3, d3) =
             cudaMemcpy d_input input (byte_count width height) cudaMemcpyHostToDevice (hm, d2);
          (e4, d4) =
             launch_processImageKernel (dimGrid width height) dimBlock d_input d_output width height d3;
          (e5, hm5, d5) =
             cudaMemcpy output d_output (byte_count width height) cudaMemcpyDeviceToHost (hm3, d4);
          (e6, d6) = cudaFree d_input d5;
          (e7, d7) = cudaFree d_output d6
      in (hm5, d7))"

section \<open>Observations on a call\<close>

text \<open>The base addresses of the live allocations of a device.\<close>

definition keys :: "dev_mem \<Rightarrow> addr set" where
  "keys m = fst ` set m"

definition live :: "device \<Rightarrow> addr set" where
  "live d = keys (allocs d)"

text \<open>The runtime calls made between two states of the device, in order.\<close>

definition issued :: "device \<Rightarrow> device \<Rightarrow> api_call list" where
  "issued d d' = map fst (drop (length (calls d)) (calls d'))"

text \<open>
  The indices at which one launch copies a byte, thread after thread, in the order in
  which the threads are run.
\<close>

definition launch_indices :: "cint \<Rightarrow> cint \<Rightarrow> cint list" where
  "launch_indices width height =
     concat (map (kernel_indices width height dimBlock) (grid_threads (dimGrid width height) dimBlock))"

text \<open>
  What a buffer \<open>out\<close> holds after the statement \<^verbatim>\<open>output[i] = input[i]\<close> has been run at
  the indices \<open>is\<close>, one after the other, the input buffer holding \<open>inp\<close>.
\<close>

definition copy_list :: "byte list \<Rightarrow> cint list \<Rightarrow> byte list \<Rightarrow> byte list" where
  "copy_list inp is out = fold (\<lambda>i out. out[nat (sint i) := inp ! nat (sint i)]) is out"

text \<open>The \<^verbatim>\<open>cudaError_t\<close> values these calls returned, in order.\<close>

definition results :: "device \<Rightarrow> device \<Rightarrow> cudaError list" where
  "results d d' = map snd (drop (length (calls d)) (calls d'))"

text \<open>The byte count a runtime call is given, if it takes one.\<close>

fun call_size :: "api_call \<Rightarrow> nat option" where
  "call_size (Malloc n) = Some n"
| "call_size (Memcpy dst src n k) = Some n"
| "call_size (Launch g b p q w h) = None"
| "call_size (Free p) = None"

text \<open>The allocations of a device with a base address in \<open>K\<close>.\<close>

definition others :: "addr set \<Rightarrow> device \<Rightarrow> dev_mem" where
  "others K d = filter (\<lambda>e. fst e \<in> K) (allocs d)"

text \<open>What no runtime call changes.\<close>

definition same_device :: "device \<Rightarrow> device \<Rightarrow> bool" where
  "same_device d d' \<longleftrightarrow>
     capacity d' = capacity d \<and> fresh_byte d' = fresh_byte d \<and> faults d' = faults d"

text \<open>
  Concrete inputs: a device of 1 KiB with nothing allocated on which no call fails for a
  reason of the environment, a device on which every call fails, and a host memory of
  zeros.
\<close>

definition idle_device :: device where
  "idle_device =
     \<lparr>allocs = [], capacity = 1024, fresh_byte = 0, faults = (\<lambda>k. False),
       poisoned = False, calls = []\<rparr>"

text \<open>
  A device with room for one buffer of a 2 by 2 image only, and a device that is full
  and holds one allocation of another owner at address 7.
\<close>

definition tight_device :: device where
  "tight_device =
     \<lparr>allocs = [], capacity = 12, fresh_byte = 0, faults = (\<lambda>k. False),
       poisoned = False, calls = []\<rparr>"

definition full_device :: device where
  "full_device =
     \<lparr>allocs = [(7, replicate 12 5)], capacity = 12, fresh_byte = 0, faults = (\<lambda>k. False),
       poisoned = False, calls = []\<rparr>"

definition failing_device :: device where
  "failing_device =
     \<lparr>allocs = [], capacity = 1024, fresh_byte = 0, faults = (\<lambda>k. True),
       poisoned = False, calls = []\<rparr>"

definition blank_host :: host_mem where
  "blank_host = (\<lambda>a. 0)"



section \<open>Arithmetic of the 32-bit values\<close>

lemma sint32_range: "- 2147483648 \<le> sint (w :: 32 word) \<and> sint w < 2147483648"
  using sint_range_size [of w] by (simp add: word_size)

lemma unat_of_int_64: "int (unat (word_of_int i :: 64 word)) = i mod 18446744073709551616"
  by (simp add: unsigned_of_int take_bit_eq_mod)

lemma to_size_t_int: "int (to_size_t n) = sint n mod 18446744073709551616"
  unfolding to_size_t_def scast_eq by (rule unat_of_int_64)

lemma to_size_t_nonneg: "0 \<le> sint n \<Longrightarrow> to_size_t n = nat (sint n)"
  using to_size_t_int [of n] sint32_range [of n] by (simp add: nat_eq_iff)

lemma to_size_t_neg:
  assumes "sint n < 0"
  shows "int (to_size_t n) = 18446744073709551616 + sint n"
proof -
  have "sint n mod 18446744073709551616 = (sint n + 18446744073709551616) mod 18446744073709551616"
    by simp
  also have "\<dots> = sint n + 18446744073709551616"
    using assms sint32_range [of n] by (intro mod_pos_pos_trivial) simp_all
  finally show ?thesis by (simp add: to_size_t_int)
qed

lemma sint_of_int_32:
  "- 2147483648 \<le> i \<Longrightarrow> i < 2147483648 \<Longrightarrow> sint (word_of_int i :: 32 word) = i"
  by (simp add: signed_take_bit_int_eq_self sint_sbintrunc')

lemma sint_of_nat_32: "n < 2147483648 \<Longrightarrow> sint (of_nat n :: 32 word) = int n"
  using sint_of_int_32 [of "int n"] by simp

lemma uint_sint_32:
  assumes "0 \<le> sint (w :: 32 word)"
  shows "uint w = sint w"
proof -
  have "uint (word_of_int (sint w) :: 32 word) = take_bit LENGTH(32) (sint w)"
    by (rule uint_word_of_int_eq)
  also have "\<dots> = sint w"
    using assms sint32_range [of w] by (intro take_bit_int_eq_self) simp_all
  finally show ?thesis by simp
qed

lemma unat_sint_32:
  assumes "0 \<le> sint (w :: 32 word)"
  shows "unat w = nat (sint w)"
proof -
  have "int (unat w) = uint w" by simp
  then show ?thesis using uint_sint_32 [OF assms] by linarith
qed

text \<open>The grid dimension of lines 25 and 26 is the ceiling of \<open>width / 16\<close>.\<close>

lemma grid_dim:
  assumes "0 < sint (w :: 32 word)"
  shows "unat ((w + 16 - 1) div 16) = (nat (sint w) + 15) div 16"
proof -
  have u: "unat w = nat (sint w)" using assms by (simp add: unat_sint_32)
  have "unat w < 2147483648" using u sint32_range [of w] by linarith
  then have "unat (w + 15) = unat w + 15"
    by (simp add: unat_word_ariths)
  moreover have "w + 16 - 1 = w + 15" by simp
  ultimately have "unat (w + 16 - 1) = nat (sint w) + 15" using u by (simp only:)
  then show ?thesis by (simp only: unat_div) simp
qed

lemma thread_x_sint:
  assumes "bx * 16 + tx < 2147483648"
  shows "sint (thread_x (16, 16) (bx, by, tx, ty)) = int (bx * 16 + tx)"
proof -
  have "thread_x (16, 16) (bx, by, tx, ty) = of_nat (bx * 16 + tx)"
    by (simp add: thread_x_def)
  then show ?thesis using assms by (simp only: sint_of_nat_32)
qed

lemma thread_y_sint:
  assumes "by * 16 + ty < 2147483648"
  shows "sint (thread_y (16, 16) (bx, by, tx, ty)) = int (by * 16 + ty)"
proof -
  have "thread_y (16, 16) (bx, by, tx, ty) = of_nat (by * 16 + ty)"
    by (simp add: thread_y_def)
  then show ?thesis using assms by (simp only: sint_of_nat_32)
qed

text \<open>The index of a pixel inside the image, without overflow.\<close>

lemma pixel_bound:
  fixes X Y W H :: int
  assumes "0 \<le> X" "X < W" "0 \<le> Y" "Y < H"
  shows "0 \<le> Y * W + X" and "Y * W + X + 1 \<le> W * H"
proof -
  have W: "0 \<le> W" using assms by linarith
  have "0 \<le> Y * W" using assms(3) W by (rule mult_nonneg_nonneg)
  then show "0 \<le> Y * W + X" using assms(1) by linarith
  have "Y + 1 \<le> H" using assms(4) by linarith
  then have "(Y + 1) * W \<le> H * W" using W by (rule mult_right_mono)
  moreover have "(Y + 1) * W = Y * W + W" by (simp only: distrib_right mult_1)
  moreover have "H * W = W * H" by (rule mult.commute)
  ultimately show "Y * W + X + 1 \<le> W * H" using assms(2) by linarith
qed

lemma pixel_index_less:
  fixes A B :: int
  assumes "A + 1 \<le> B" "B * 3 < N" "c < (3::nat)"
  shows "3 * A + int c < N"
  using assms by linarith

lemma pixel_index_ge:
  fixes A :: int
  assumes "0 \<le> A"
  shows "- 2147483648 \<le> 3 * A + int c"
  using assms by linarith

lemma index_repr:
  "3 * (y * w + x) + of_nat c = (word_of_int (3 * (sint y * sint w + sint x) + int c) :: 32 word)"
  by (simp only: of_int_add of_int_mult of_int_numeral of_int_of_nat_eq of_int_sint scast_id)

lemma index_sint:
  assumes "0 \<le> sint x" "sint x < sint w" "0 \<le> sint y" "sint y < sint h"
    and "sint w * sint h * 3 < 2147483648" and "c < 3"
  shows "sint (3 * (y * w + x) + of_nat c :: 32 word) = 3 * (sint y * sint w + sint x) + int c"
proof -
  let ?i = "3 * (sint y * sint w + sint x) + int c"
  note b = pixel_bound [OF assms(1-4)]
  have lt: "?i < 2147483648" by (rule pixel_index_less [OF b(2) assms(5) assms(6)])
  have ge: "- 2147483648 \<le> ?i" by (rule pixel_index_ge [OF b(1)])
  show ?thesis unfolding index_repr by (rule sint_of_int_32 [OF ge lt])
qed

section \<open>The runtime calls of one dispatch\<close>

lemma processImage_cases:
  obtains e1 d_input d1 e2 d_output d2 e3 hm3 d3 e4 d4 e5 hm5 d5 e6 d6 e7 d7 where
    "cudaMalloc (fst uninit) (byte_count width height) d = (e1, d_input, d1)"
    "cudaMalloc (snd uninit) (byte_count width height) d1 = (e2, d_output, d2)"
    "cudaMemcpy d_input input (byte_count width height) cudaMemcpyHostToDevice (hm, d2) = (e3, hm3, d3)"
    "launch_processImageKernel (dimGrid width height) dimBlock d_input d_output width height d3 = (e4, d4)"
    "cudaMemcpy output d_output (byte_count width height) cudaMemcpyDeviceToHost (hm3, d4) = (e5, hm5, d5)"
    "cudaFree d_input d5 = (e6, d6)"
    "cudaFree d_output d6 = (e7, d7)"
    "processImage input output width height uninit (hm, d) = (hm5, d7)"
proof -
  obtain e1 d_input d1 where s1:
    "cudaMalloc (fst uninit) (byte_count width height) d = (e1, d_input, d1)"
    by (rule prod_cases3)
  obtain e2 d_output d2 where s2:
    "cudaMalloc (snd uninit) (byte_count width height) d1 = (e2, d_output, d2)"
    by (rule prod_cases3)
  obtain e3 hm3 d3 where s3:
    "cudaMemcpy d_input input (byte_count width height) cudaMemcpyHostToDevice (hm, d2) = (e3, hm3, d3)"
    by (rule prod_cases3)
  obtain e4 d4 where s4:
    "launch_processImageKernel (dimGrid width height) dimBlock d_input d_output width height d3 = (e4, d4)"
    by (rule prod.exhaust)
  obtain e5 hm5 d5 where s5:
    "cudaMemcpy output d_output (byte_count width height) cudaMemcpyDeviceToHost (hm3, d4) = (e5, hm5, d5)"
    by (rule prod_cases3)
  obtain e6 d6 where s6: "cudaFree d_input d5 = (e6, d6)"
    by (rule prod.exhaust)
  obtain e7 d7 where s7: "cudaFree d_output d6 = (e7, d7)"
    by (rule prod.exhaust)
  have "processImage input output width height uninit (hm, d) = (hm5, d7)"
    unfolding processImage_def by (simp add: s1 s2 s3 s4 s5 s6 s7)
  with s1 s2 s3 s4 s5 s6 s7 show thesis by (rule that)
qed

lemma cudaMalloc_calls:
  "cudaMalloc p n d = (e, q, d') \<Longrightarrow> calls d' = calls d @ [(Malloc n, e)]"
  by (auto simp: cudaMalloc_def logged_def split: if_splits)

lemma cudaMemcpy_calls:
  "cudaMemcpy dst src n k (hm, d) = (e, hm', d') \<Longrightarrow> calls d' = calls d @ [(Memcpy dst src n k, e)]"
  by (auto simp: cudaMemcpy_def logged_def Let_def split: if_splits option.splits cudaMemcpyKind.splits)

lemma launch_calls:
  "launch_processImageKernel g b p q w h d = (e, d') \<Longrightarrow>
     calls d' = calls d @ [(Launch g b p q w h, e)]"
  by (auto simp: launch_processImageKernel_def logged_def Let_def split: if_splits option.splits)

lemma cudaFree_calls:
  "cudaFree p d = (e, d') \<Longrightarrow> calls d' = calls d @ [(Free p, e)]"
  by (auto simp: cudaFree_def logged_def split: if_splits option.splits)

lemma processImage_calls:
  "\<exists>d_input d_output e1 e2 e3 e4 e5 e6 e7.
     calls (snd (processImage input output width height uninit (hm, d))) =
       calls d @
       [(Malloc (byte_count width height), e1),
        (Malloc (byte_count width height), e2),
        (Memcpy d_input input (byte_count width height) cudaMemcpyHostToDevice, e3),
        (Launch (dimGrid width height) dimBlock d_input d_output width height, e4),
        (Memcpy output d_output (byte_count width height) cudaMemcpyDeviceToHost, e5),
        (Free d_input, e6),
        (Free d_output, e7)]"
proof -
  obtain e1 d_input d1 e2 d_output d2 e3 hm3 d3 e4 d4 e5 hm5 d5 e6 d6 e7 d7 where
    s: "cudaMalloc (fst uninit) (byte_count width height) d = (e1, d_input, d1)"
    "cudaMalloc (snd uninit) (byte_count width height) d1 = (e2, d_output, d2)"
    "cudaMemcpy d_input input (byte_count width height) cudaMemcpyHostToDevice (hm, d2) = (e3, hm3, d3)"
    "launch_processImageKernel (dimGrid width height) dimBlock d_input d_output width height d3 = (e4, d4)"
    "cudaMemcpy output d_output (byte_count width height) cudaMemcpyDeviceToHost (hm3, d4) = (e5, hm5, d5)"
    "cudaFree d_input d5 = (e6, d6)"
    "cudaFree d_output d6 = (e7, d7)"
    and r: "processImage input output width height uninit (hm, d) = (hm5, d7)"
    by (rule processImage_cases)
  have "calls d7 = calls d @
       [(Malloc (byte_count width height), e1),
        (Malloc (byte_count width height), e2),
        (Memcpy d_input input (byte_count width height) cudaMemcpyHostToDevice, e3),
        (Launch (dimGrid width height) dimBlock d_input d_output width height, e4),
        (Memcpy output d_output (byte_count width height) cudaMemcpyDeviceToHost, e5),
        (Free d_input, e6),
        (Free d_output, e7)]"
    using cudaMalloc_calls [OF s(1)] cudaMalloc_calls [OF s(2)] cudaMemcpy_calls [OF s(3)]
      launch_calls [OF s(4)] cudaMemcpy_calls [OF s(5)] cudaFree_calls [OF s(6)]
      cudaFree_calls [OF s(7)]
    by simp
  then show ?thesis unfolding r by auto
qed


lemma processImage_issued:
  obtains d_input d_output where
    "issued d (snd (processImage input output width height uninit (hm, d))) =
       [Malloc (byte_count width height),
        Malloc (byte_count width height),
        Memcpy d_input input (byte_count width height) cudaMemcpyHostToDevice,
        Launch (dimGrid width height) dimBlock d_input d_output width height,
        Memcpy output d_output (byte_count width height) cudaMemcpyDeviceToHost,
        Free d_input,
        Free d_output]"
proof -
  have "\<exists>d_input d_output e1 e2 e3 e4 e5 e6 e7.
     calls (snd (processImage input output width height uninit (hm, d))) =
       calls d @
       [(Malloc (byte_count width height), e1),
        (Malloc (byte_count width height), e2),
        (Memcpy d_input input (byte_count width height) cudaMemcpyHostToDevice, e3),
        (Launch (dimGrid width height) dimBlock d_input d_output width height, e4),
        (Memcpy output d_output (byte_count width height) cudaMemcpyDeviceToHost, e5),
        (Free d_input, e6),
        (Free d_output, e7)]"
    by (rule processImage_calls)
  then obtain d_input d_output e1 e2 e3 e4 e5 e6 e7 where
    "calls (snd (processImage input output width height uninit (hm, d))) =
       calls d @
       [(Malloc (byte_count width height), e1),
        (Malloc (byte_count width height), e2),
        (Memcpy d_input input (byte_count width height) cudaMemcpyHostToDevice, e3),
        (Launch (dimGrid width height) dimBlock d_input d_output width height, e4),
        (Memcpy output d_output (byte_count width height) cudaMemcpyDeviceToHost, e5),
        (Free d_input, e6),
        (Free d_output, e7)]"
    by blast
  then have "issued d (snd (processImage input output width height uninit (hm, d))) =
       [Malloc (byte_count width height),
        Malloc (byte_count width height),
        Memcpy d_input input (byte_count width height) cudaMemcpyHostToDevice,
        Launch (dimGrid width height) dimBlock d_input d_output width height,
        Memcpy output d_output (byte_count width height) cudaMemcpyDeviceToHost,
        Free d_input,
        Free d_output]"
    by (simp add: issued_def)
  then show thesis by (rule that)
qed


section \<open>The byte count\<close>

lemma product_repr:
  "w * h * 3 = (word_of_int (sint w * sint h * 3) :: 32 word)"
  by (simp only: of_int_add of_int_mult of_int_numeral of_int_of_nat_eq of_int_sint scast_id)

lemma sint_of_int_stb: "sint (word_of_int k :: 32 word) = signed_take_bit 31 k"
  by (simp add: sint_sbintrunc')

lemma sint_product_mod:
  "sint (w * h * 3 :: 32 word) mod 4294967296 = (sint w * sint h * 3) mod 4294967296"
proof -
  have "sint (w * h * 3 :: 32 word) = signed_take_bit 31 (sint w * sint h * 3)"
    by (subst product_repr) (rule sint_of_int_stb)
  then have "take_bit 32 (sint (w * h * 3 :: 32 word)) = take_bit 32 (sint w * sint h * 3)"
    by (simp add: take_bit_signed_take_bit)
  then show ?thesis by (simp add: take_bit_eq_mod)
qed

lemma product_magnitude:
  "sint (w :: 32 word) * sint (h :: 32 word) * 3 \<le> 13835058055282163712"
proof -
  have "\<bar>sint w\<bar> \<le> 2147483648" "\<bar>sint h\<bar> \<le> 2147483648"
    using sint32_range [of w] sint32_range [of h] by linarith+
  then have "\<bar>sint w\<bar> * \<bar>sint h\<bar> \<le> 2147483648 * 2147483648"
    by (intro mult_mono) simp_all
  then have "\<bar>sint w * sint h\<bar> \<le> 4611686018427387904" by (simp add: abs_mult)
  then show ?thesis by linarith
qed

lemma byte_count_range:
  "byte_count w h < 2147483648 \<or> 18446744071562067968 \<le> byte_count w h"
proof (cases "0 \<le> sint (w * h * 3)")
  case True
  then show ?thesis
    using to_size_t_nonneg [of "w * h * 3"] sint32_range [of "w * h * 3"]
    unfolding byte_count_def by linarith
next
  case False
  then have "int (byte_count w h) = 18446744073709551616 + sint (w * h * 3)"
    by (simp add: byte_count_def to_size_t_neg)
  then show ?thesis using sint32_range [of "w * h * 3"] by linarith
qed

lemma byte_count_overflow:
  assumes "2147483648 \<le> sint w * sint h * 3"
  shows "int (byte_count w h) \<noteq> sint w * sint h * 3"
  using assms byte_count_range [of w h] product_magnitude [of w h] by linarith

lemma sint_product_overflow:
  assumes "2147483648 \<le> sint w * sint h * 3"
  shows "sint (w * h * 3 :: 32 word) \<noteq> sint w * sint h * 3"
  using assms sint32_range [of "w * h * 3"] by linarith

lemma byte_count_zero: "width = 0 \<or> height = 0 \<Longrightarrow> byte_count width height = 0"
  by (auto simp: byte_count_def to_size_t_def)

section \<open>Device memory\<close>

lemma run_all_invariant:
  assumes "\<And>x s s'. f x s = Some s' \<Longrightarrow> P s \<Longrightarrow> P s'"
    and "run_all f xs s = Some s'" and "P s"
  shows "P s'"
  using assms(2,3)
proof (induction xs arbitrary: s)
  case Nil
  then show ?case by simp
next
  case (Cons x xs)
  then show ?case using assms(1) by (auto split: option.splits)
qed

lemma processImageKernel_run_all:
  "processImageKernel input output width height blockDim t m =
     run_all (copy_byte input output) (kernel_indices width height blockDim t) m"
  by (simp add: processImageKernel_def kernel_indices_def Let_def split: option.splits)

lemma map_of_Some_key: "map_of m p = Some bs \<Longrightarrow> p \<in> keys m"
  unfolding keys_def by (metis domI dom_map_of_conv_image_fst)

lemma keys_update: "map_of m p = Some bs \<Longrightarrow> keys (AList.update p v m) = keys m"
  using map_of_Some_key [of m p bs] by (simp add: keys_def dom_update insert_absorb)

lemma keys_delete: "keys (AList.delete p m) \<subseteq> keys m" "p \<notin> keys (AList.delete p m)"
  unfolding keys_def by (rule dom_delete_subset, rule delete_notin_dom)

lemma keys_Cons: "keys ((a, bs) # m) = insert a (keys m)"
  by (simp add: keys_def)

lemma dev_write_keys: "dev_write m p i v = Some m' \<Longrightarrow> keys m' = keys m"
  by (auto simp: dev_write_def keys_update split: option.splits if_splits)

lemma copy_byte_keys: "copy_byte p q i m = Some m' \<Longrightarrow> keys m' = keys m"
  by (auto simp: copy_byte_def dest: dev_write_keys split: option.splits)

lemma kernel_keys:
  assumes "processImageKernel p q w h b t m = Some m'"
  shows "keys m' = keys m"
proof -
  have "run_all (copy_byte p q) (kernel_indices w h b t) m = Some m'"
    using assms by (simp only: processImageKernel_run_all)
  then show ?thesis
    by (rule run_all_invariant [where P = "\<lambda>s. keys s = keys m", rotated 1])
      (simp_all add: copy_byte_keys)
qed

lemma threads_keys:
  assumes "run_all (processImageKernel p q w h b) ts m = Some m'"
  shows "keys m' = keys m"
  using assms
  by (rule run_all_invariant [where P = "\<lambda>s. keys s = keys m", rotated 1])
    (simp_all add: kernel_keys)

lemma launch_live:
  "launch_processImageKernel g b p q w h d = (e, d') \<Longrightarrow> live d' = live d"
  by (auto simp: launch_processImageKernel_def logged_def Let_def live_def threads_keys
      split: if_splits option.splits)

lemma cudaMemcpy_live:
  "cudaMemcpy dst src n k (hm, d) = (e, hm', d') \<Longrightarrow> live d' = live d"
  by (auto simp: cudaMemcpy_def logged_def Let_def live_def keys_update
      split: if_splits option.splits cudaMemcpyKind.splits)

lemma fresh_addr_not_live: "fresh_addr d \<notin> live d"
proof
  assume "fresh_addr d \<in> live d"
  then have "fresh_addr d \<le> Max (set (0 # map fst (allocs d)))"
    by (intro Max_ge) (auto simp: live_def keys_def)
  then show False by (simp add: fresh_addr_def)
qed

lemma fresh_addr_not_null: "fresh_addr d \<noteq> 0"
  by (simp add: fresh_addr_def)

lemma cudaMalloc_live:
  assumes "cudaMalloc p n d = (e, q, d')"
  shows "(q = p \<and> live d' = live d) \<or> (q \<noteq> 0 \<and> q \<notin> live d \<and> live d' = insert q (live d))"
  using assms fresh_addr_not_live [of d] fresh_addr_not_null [of d]
  by (auto simp: cudaMalloc_def logged_def live_def keys_Cons split: if_splits)

lemma cudaFree_live: "cudaFree p d = (e, d') \<Longrightarrow> live d' \<subseteq> live d"
proof -
  assume "cudaFree p d = (e, d')"
  then have "allocs d' = allocs d \<or> allocs d' = AList.delete p (allocs d)"
    by (auto simp: cudaFree_def logged_def split: if_splits option.splits)
  then show "live d' \<subseteq> live d"
    using keys_delete(1) [of p "allocs d"] by (auto simp: live_def)
qed

lemma cudaFree_success:
  assumes "cudaFree p d = (cudaSuccess, d')"
  shows "\<not> faulty d" and "p \<noteq> 0 \<Longrightarrow> p \<notin> live d'"
proof -
  show "\<not> faulty d"
    using assms by (auto simp: cudaFree_def split: if_splits)
  assume "p \<noteq> 0"
  then have "allocs d' = AList.delete p (allocs d)"
    using assms by (auto simp: cudaFree_def logged_def split: if_splits option.splits)
  then show "p \<notin> live d'"
    using keys_delete(2) [of p "allocs d"] by (simp add: live_def)
qed

lemma cudaMalloc_success:
  assumes "cudaMalloc p n d = (cudaSuccess, q, d')"
  shows "\<not> faulty d" "q \<noteq> 0" "q \<notin> live d" "live d' = insert q (live d)"
  using assms fresh_addr_not_live [of d] fresh_addr_not_null [of d]
  by (auto simp: cudaMalloc_def logged_def live_def keys_Cons split: if_splits)

lemma cudaFree_poisoned: "cudaFree p d = (e, d') \<Longrightarrow> poisoned d' = poisoned d"
  by (auto simp: cudaFree_def logged_def split: if_splits option.splits)

text \<open>The results of the seven calls of one dispatch.\<close>

lemma processImage_steps:
  obtains e1 d_input d1 e2 d_output d2 e3 hm3 d3 e4 d4 e5 hm5 d5 e6 d6 e7 d7 where
    "cudaMalloc (fst uninit) (byte_count width height) d = (e1, d_input, d1)"
    "cudaMalloc (snd uninit) (byte_count width height) d1 = (e2, d_output, d2)"
    "cudaMemcpy d_input input (byte_count width height) cudaMemcpyHostToDevice (hm, d2) = (e3, hm3, d3)"
    "launch_processImageKernel (dimGrid width height) dimBlock d_input d_output width height d3 = (e4, d4)"
    "cudaMemcpy output d_output (byte_count width height) cudaMemcpyDeviceToHost (hm3, d4) = (e5, hm5, d5)"
    "cudaFree d_input d5 = (e6, d6)"
    "cudaFree d_output d6 = (e7, d7)"
    "processImage input output width height uninit (hm, d) = (hm5, d7)"
    "results d d7 = [e1, e2, e3, e4, e5, e6, e7]"
proof -
  obtain e1 d_input d1 e2 d_output d2 e3 hm3 d3 e4 d4 e5 hm5 d5 e6 d6 e7 d7 where
    s: "cudaMalloc (fst uninit) (byte_count width height) d = (e1, d_input, d1)"
    "cudaMalloc (snd uninit) (byte_count width height) d1 = (e2, d_output, d2)"
    "cudaMemcpy d_input input (byte_count width height) cudaMemcpyHostToDevice (hm, d2) = (e3, hm3, d3)"
    "launch_processImageKernel (dimGrid width height) dimBlock d_input d_output width height d3 = (e4, d4)"
    "cudaMemcpy output d_output (byte_count width height) cudaMemcpyDeviceToHost (hm3, d4) = (e5, hm5, d5)"
    "cudaFree d_input d5 = (e6, d6)"
    "cudaFree d_output d6 = (e7, d7)"
    and r: "processImage input output width height uninit (hm, d) = (hm5, d7)"
    by (rule processImage_cases)
  have "calls d7 = calls d @
       [(Malloc (byte_count width height), e1),
        (Malloc (byte_count width height), e2),
        (Memcpy d_input input (byte_count width height) cudaMemcpyHostToDevice, e3),
        (Launch (dimGrid width height) dimBlock d_input d_output width height, e4),
        (Memcpy output d_output (byte_count width height) cudaMemcpyDeviceToHost, e5),
        (Free d_input, e6),
        (Free d_output, e7)]"
    using cudaMalloc_calls [OF s(1)] cudaMalloc_calls [OF s(2)] cudaMemcpy_calls [OF s(3)]
      launch_calls [OF s(4)] cudaMemcpy_calls [OF s(5)] cudaFree_calls [OF s(6)]
      cudaFree_calls [OF s(7)]
    by simp
  then have "results d d7 = [e1, e2, e3, e4, e5, e6, e7]"
    by (simp add: results_def)
  with s r show thesis by (rule that)
qed

lemma processImage_live_subset:
  assumes "results d (snd (processImage input output width height uninit (hm, d))) ! 5 = cudaSuccess"
    and "results d (snd (processImage input output width height uninit (hm, d))) ! 6 = cudaSuccess"
  shows "live (snd (processImage input output width height uninit (hm, d))) \<subseteq> live d"
proof -
  obtain e1 d_input d1 e2 d_output d2 e3 hm3 d3 e4 d4 e5 hm5 d5 e6 d6 e7 d7 where
    s: "cudaMalloc (fst uninit) (byte_count width height) d = (e1, d_input, d1)"
    "cudaMalloc (snd uninit) (byte_count width height) d1 = (e2, d_output, d2)"
    "cudaMemcpy d_input input (byte_count width height) cudaMemcpyHostToDevice (hm, d2) = (e3, hm3, d3)"
    "launch_processImageKernel (dimGrid width height) dimBlock d_input d_output width height d3 = (e4, d4)"
    "cudaMemcpy output d_output (byte_count width height) cudaMemcpyDeviceToHost (hm3, d4) = (e5, hm5, d5)"
    "cudaFree d_input d5 = (e6, d6)"
    "cudaFree d_output d6 = (e7, d7)"
    and r: "processImage input output width height uninit (hm, d) = (hm5, d7)"
    and res: "results d d7 = [e1, e2, e3, e4, e5, e6, e7]"
    by (rule processImage_steps)
  have e: "e6 = cudaSuccess" "e7 = cudaSuccess" using assms by (simp_all add: r res)
  have l5: "live d5 = live d2"
    using cudaMemcpy_live [OF s(3)] launch_live [OF s(4)] cudaMemcpy_live [OF s(5)] by simp
  have "live d7 \<subseteq> live d"
  proof
    fix x assume x7: "x \<in> live d7"
    then have x6: "x \<in> live d6" and n2: "d_output \<noteq> 0 \<Longrightarrow> x \<noteq> d_output"
      using cudaFree_live [OF s(7)] cudaFree_success(2) [OF s(7) [unfolded e]] by auto
    then have x5: "x \<in> live d5" and n1: "d_input \<noteq> 0 \<Longrightarrow> x \<noteq> d_input"
      using cudaFree_live [OF s(6)] cudaFree_success(2) [OF s(6) [unfolded e]]
        cudaFree_live [OF s(7)] by auto
    from x5 l5 have "x \<in> live d2" by simp
    then have "x \<in> live d1" using cudaMalloc_live [OF s(2)] n2 by auto
    then show "x \<in> live d" using cudaMalloc_live [OF s(1)] n1 by auto
  qed
  then show ?thesis by (simp add: r)
qed

text \<open>The allocations with a base address in K are untouched by an operation on another address.\<close>

lemma filter_update_other:
  "p \<notin> K \<Longrightarrow> filter (\<lambda>e. fst e \<in> K) (AList.update p v m) = filter (\<lambda>e. fst e \<in> K) m"
  by (induction m) auto

lemma filter_delete_other:
  "p \<notin> K \<Longrightarrow> filter (\<lambda>e. fst e \<in> K) (AList.delete p m) = filter (\<lambda>e. fst e \<in> K) m"
  by (induction m) auto

lemma filter_keys_all: "keys m \<subseteq> K \<Longrightarrow> filter (\<lambda>e. fst e \<in> K) m = m"
  by (induction m) (auto simp: keys_def)

lemma dev_write_other:
  "dev_write m p i v = Some m' \<Longrightarrow> p \<notin> K \<Longrightarrow>
     filter (\<lambda>e. fst e \<in> K) m' = filter (\<lambda>e. fst e \<in> K) m"
  by (auto simp: dev_write_def filter_update_other split: option.splits if_splits)

lemma copy_byte_other:
  "copy_byte p q i m = Some m' \<Longrightarrow> q \<notin> K \<Longrightarrow>
     filter (\<lambda>e. fst e \<in> K) m' = filter (\<lambda>e. fst e \<in> K) m"
  by (auto simp: copy_byte_def dest: dev_write_other split: option.splits)

lemma kernel_other:
  assumes "processImageKernel p q w h b t m = Some m'" and "q \<notin> K"
  shows "filter (\<lambda>e. fst e \<in> K) m' = filter (\<lambda>e. fst e \<in> K) m"
proof -
  have "run_all (copy_byte p q) (kernel_indices w h b t) m = Some m'"
    using assms(1) by (simp only: processImageKernel_run_all)
  then show ?thesis
    by (rule run_all_invariant
        [where P = "\<lambda>s. filter (\<lambda>e. fst e \<in> K) s = filter (\<lambda>e. fst e \<in> K) m", rotated 1])
      (simp_all add: copy_byte_other [OF _ assms(2)])
qed

lemma threads_other:
  assumes "run_all (processImageKernel p q w h b) ts m = Some m'" and "q \<notin> K"
  shows "filter (\<lambda>e. fst e \<in> K) m' = filter (\<lambda>e. fst e \<in> K) m"
  using assms(1)
  by (rule run_all_invariant
      [where P = "\<lambda>s. filter (\<lambda>e. fst e \<in> K) s = filter (\<lambda>e. fst e \<in> K) m", rotated 1])
    (simp_all add: kernel_other [OF _ assms(2)])

lemma launch_other:
  "launch_processImageKernel g b p q w h d = (e, d') \<Longrightarrow> q \<notin> K \<Longrightarrow> others K d' = others K d"
  by (auto simp: launch_processImageKernel_def logged_def Let_def others_def threads_other
      split: if_splits option.splits)

lemma cudaMemcpy_other:
  "cudaMemcpy dst src n k (hm, d) = (e, hm', d') \<Longrightarrow> k = cudaMemcpyHostToDevice \<longrightarrow> dst \<notin> K \<Longrightarrow>
     others K d' = others K d"
  by (auto simp: cudaMemcpy_def logged_def Let_def others_def filter_update_other
      split: if_splits option.splits cudaMemcpyKind.splits)

lemma cudaMalloc_other:
  assumes "cudaMalloc p n d = (e, q, d')" and "K \<subseteq> live d"
  shows "others K d' = others K d"
  using assms fresh_addr_not_live [of d]
  by (auto simp: cudaMalloc_def logged_def others_def split: if_splits)

lemma cudaFree_other:
  "cudaFree p d = (e, d') \<Longrightarrow> p \<notin> K \<Longrightarrow> others K d' = others K d"
  by (auto simp: cudaFree_def logged_def others_def filter_delete_other
      split: if_splits option.splits)

lemma cudaMalloc_same: "cudaMalloc p n d = (e, q, d') \<Longrightarrow> same_device d d'"
  by (auto simp: cudaMalloc_def logged_def same_device_def split: if_splits)

lemma cudaMemcpy_same: "cudaMemcpy dst src n k (hm, d) = (e, hm', d') \<Longrightarrow> same_device d d'"
  by (auto simp: cudaMemcpy_def logged_def Let_def same_device_def
      split: if_splits option.splits cudaMemcpyKind.splits)

lemma launch_same: "launch_processImageKernel g b p q w h d = (e, d') \<Longrightarrow> same_device d d'"
  by (auto simp: launch_processImageKernel_def logged_def Let_def same_device_def
      split: if_splits option.splits)

lemma cudaFree_same: "cudaFree p d = (e, d') \<Longrightarrow> same_device d d'"
  by (auto simp: cudaFree_def logged_def same_device_def split: if_splits option.splits)

lemma same_device_trans: "same_device a b \<Longrightarrow> same_device b c \<Longrightarrow> same_device a c"
  by (simp add: same_device_def)

text \<open>Host memory: only a copy to the host writes it, and only inside the destination.\<close>

lemma cudaMemcpy_host:
  assumes "cudaMemcpy dst src n k (hm, d) = (e, hm', d')"
  shows "k = cudaMemcpyHostToDevice \<Longrightarrow> hm' = hm"
    and "\<not> (dst \<le> a \<and> a < dst + n) \<Longrightarrow> hm' a = hm a"
  using assms
  by (auto simp: cudaMemcpy_def Let_def host_write_def
      split: if_splits option.splits cudaMemcpyKind.splits)

lemma others_all: "live d \<subseteq> K \<Longrightarrow> others K d = allocs d"
  by (simp add: others_def live_def filter_keys_all)

lemma processImage_host_frame:
  assumes "\<not> (output \<le> a \<and> a < output + byte_count width height)"
  shows "fst (processImage input output width height uninit (hm, d)) a = hm a"
proof -
  obtain e1 d_input d1 e2 d_output d2 e3 hm3 d3 e4 d4 e5 hm5 d5 e6 d6 e7 d7 where
    s: "cudaMalloc (fst uninit) (byte_count width height) d = (e1, d_input, d1)"
    "cudaMalloc (snd uninit) (byte_count width height) d1 = (e2, d_output, d2)"
    "cudaMemcpy d_input input (byte_count width height) cudaMemcpyHostToDevice (hm, d2) = (e3, hm3, d3)"
    "launch_processImageKernel (dimGrid width height) dimBlock d_input d_output width height d3 = (e4, d4)"
    "cudaMemcpy output d_output (byte_count width height) cudaMemcpyDeviceToHost (hm3, d4) = (e5, hm5, d5)"
    "cudaFree d_input d5 = (e6, d6)"
    "cudaFree d_output d6 = (e7, d7)"
    and r: "processImage input output width height uninit (hm, d) = (hm5, d7)"
    by (rule processImage_cases)
  have "hm3 = hm" using cudaMemcpy_host(1) [OF s(3)] by simp
  moreover have "hm5 a = hm3 a" using cudaMemcpy_host(2) [OF s(5) assms] .
  ultimately show ?thesis by (simp add: r)
qed

lemma processImage_device_frame:
  assumes "results d (snd (processImage input output width height uninit (hm, d))) ! 0 = cudaSuccess"
    and "results d (snd (processImage input output width height uninit (hm, d))) ! 1 = cudaSuccess"
    and "results d (snd (processImage input output width height uninit (hm, d))) ! 5 = cudaSuccess"
    and "results d (snd (processImage input output width height uninit (hm, d))) ! 6 = cudaSuccess"
  shows "snd (processImage input output width height uninit (hm, d)) =
           d\<lparr>calls := calls (snd (processImage input output width height uninit (hm, d)))\<rparr>"
proof -
  obtain e1 d_input d1 e2 d_output d2 e3 hm3 d3 e4 d4 e5 hm5 d5 e6 d6 e7 d7 where
    s: "cudaMalloc (fst uninit) (byte_count width height) d = (e1, d_input, d1)"
    "cudaMalloc (snd uninit) (byte_count width height) d1 = (e2, d_output, d2)"
    "cudaMemcpy d_input input (byte_count width height) cudaMemcpyHostToDevice (hm, d2) = (e3, hm3, d3)"
    "launch_processImageKernel (dimGrid width height) dimBlock d_input d_output width height d3 = (e4, d4)"
    "cudaMemcpy output d_output (byte_count width height) cudaMemcpyDeviceToHost (hm3, d4) = (e5, hm5, d5)"
    "cudaFree d_input d5 = (e6, d6)"
    "cudaFree d_output d6 = (e7, d7)"
    and r: "processImage input output width height uninit (hm, d) = (hm5, d7)"
    and res: "results d d7 = [e1, e2, e3, e4, e5, e6, e7]"
    by (rule processImage_steps)
  have e: "e1 = cudaSuccess" "e2 = cudaSuccess" "e6 = cudaSuccess" "e7 = cudaSuccess"
    using assms by (simp_all add: r res)
  note m1 = cudaMalloc_success [OF s(1) [unfolded e]]
  note m2 = cudaMalloc_success [OF s(2) [unfolded e]]
  let ?K = "live d"
  have p1: "d_input \<notin> ?K" by (rule m1(3))
  have l1: "?K \<subseteq> live d1" using m1(4) by auto
  have p2: "d_output \<notin> ?K" using m2(3) l1 by auto
  have "others ?K d1 = others ?K d" by (rule cudaMalloc_other [OF s(1)]) simp
  moreover have "others ?K d2 = others ?K d1" by (rule cudaMalloc_other [OF s(2) l1])
  moreover have "others ?K d3 = others ?K d2" using cudaMemcpy_other [OF s(3)] p1 by simp
  moreover have "others ?K d4 = others ?K d3" by (rule launch_other [OF s(4) p2])
  moreover have "others ?K d5 = others ?K d4" using cudaMemcpy_other [OF s(5)] by simp
  moreover have "others ?K d6 = others ?K d5" by (rule cudaFree_other [OF s(6) p1])
  moreover have "others ?K d7 = others ?K d6" by (rule cudaFree_other [OF s(7) p2])
  ultimately have "others ?K d7 = others ?K d" by simp
  moreover have "live d7 \<subseteq> ?K"
  proof -
    have "live (snd (processImage input output width height uninit (hm, d))) \<subseteq> ?K"
      by (rule processImage_live_subset [OF assms(3,4)])
    then show ?thesis by (simp add: r)
  qed
  ultimately have a: "allocs d7 = allocs d" by (simp add: others_all)
  have "same_device d d7"
    by (intro same_device_trans [OF cudaMalloc_same [OF s(1)]]
        same_device_trans [OF cudaMalloc_same [OF s(2)]]
        same_device_trans [OF cudaMemcpy_same [OF s(3)]]
        same_device_trans [OF launch_same [OF s(4)]]
        same_device_trans [OF cudaMemcpy_same [OF s(5)]]
        same_device_trans [OF cudaFree_same [OF s(6)]]
        cudaFree_same [OF s(7)])
  moreover have "poisoned d7 = poisoned d"
  proof -
    have "\<not> poisoned d" using m1(1) by (simp add: faulty_def)
    moreover have "\<not> poisoned d5"
      using cudaFree_success(1) [OF s(6) [unfolded e]] by (simp add: faulty_def)
    moreover have "poisoned d7 = poisoned d5"
      using cudaFree_poisoned [OF s(6)] cudaFree_poisoned [OF s(7)] by simp
    ultimately show ?thesis by simp
  qed
  ultimately have "d7 = d\<lparr>calls := calls d7\<rparr>"
    using a by (simp add: same_device_def)
  then show ?thesis by (simp add: r)
qed

text \<open>The run of a 2 by 2 image on the idle device: every call succeeds.\<close>

lemma processImage_2x2_results:
  "results idle_device (snd (processImage 100 200 2 2 (0, 0) (blank_host, idle_device))) =
     [cudaSuccess, cudaSuccess, cudaSuccess, cudaSuccess, cudaSuccess, cudaSuccess, cudaSuccess]"
  by code_simp

lemma byte_count_2_2: "byte_count 2 2 = 12"
  by (simp add: byte_count_def to_size_t_def)

lemma live_idle_device: "live idle_device = {}"
  by (simp add: live_def keys_def idle_device_def)

section \<open>The grid and the indices of the kernel\<close>

lemma set_grid_threads:
  "set (grid_threads g b) =
     {(bx, by, tx, ty). bx < unat (fst g) \<and> by < unat (snd g) \<and> tx < unat (fst b) \<and> ty < unat (snd b)}"
  by (auto simp: grid_threads_def image_iff)


lemma dimGrid_unat:
  assumes "0 < sint width" "0 < sint height"
  shows "unat (fst (dimGrid width height)) = (nat (sint width) + 15) div 16"
    and "unat (snd (dimGrid width height)) = (nat (sint height) + 15) div 16"
  using grid_dim [OF assms(1)] grid_dim [OF assms(2)]
  by (simp_all add: dimGrid_def dimBlock_def)

lemma thread_below_2_31:
  assumes "b < (W + 15) div 16" "W < 2147483648" "t < (16 :: nat)"
  shows "b * 16 + t < 2147483648"
proof -
  have "W + 15 \<le> 2147483662" using assms(2) by linarith
  then have "(W + 15) div 16 \<le> 2147483662 div 16" by (rule div_le_mono)
  then have "b < 134217728" using assms(1) by simp
  then show ?thesis using assms(3) by linarith
qed

lemma grid_threadE:
  assumes "0 < sint width" "0 < sint height"
    and "t \<in> set (grid_threads (dimGrid width height) dimBlock)"
  obtains bx "by" tx ty where "t = (bx, by, tx, ty)"
    "tx < 16" "ty < 16"
    "bx < (nat (sint width) + 15) div 16" "by < (nat (sint height) + 15) div 16"
    "sint (thread_x dimBlock t) = int (bx * 16 + tx)"
    "sint (thread_y dimBlock t) = int (by * 16 + ty)"
proof -
  obtain bx "by" tx ty where t: "t = (bx, by, tx, ty)" by (cases t) auto
  have in_grid: "bx < (nat (sint width) + 15) div 16" "by < (nat (sint height) + 15) div 16"
    "tx < 16" "ty < 16"
    using assms(3) dimGrid_unat [OF assms(1,2)]
    by (simp_all add: t set_grid_threads dimBlock_def)
  have W: "nat (sint width) < 2147483648" and H: "nat (sint height) < 2147483648"
    using sint32_range [of width] sint32_range [of height] by linarith+
  have "sint (thread_x dimBlock t) = int (bx * 16 + tx)"
    unfolding t dimBlock_def
    by (rule thread_x_sint [OF thread_below_2_31 [OF in_grid(1) W in_grid(3)]])
  moreover have "sint (thread_y dimBlock t) = int (by * 16 + ty)"
    unfolding t dimBlock_def
    by (rule thread_y_sint [OF thread_below_2_31 [OF in_grid(2) H in_grid(4)]])
  ultimately show thesis using t in_grid by (intro that)
qed




lemma kernel_indices_guard:
  "kernel_indices width height blockDim t \<noteq> [] \<longleftrightarrow>
     sint (thread_x blockDim t) < sint width \<and> sint (thread_y blockDim t) < sint height"
  by (simp add: kernel_indices_def Let_def word_sless_alt)


lemma pixel_index_nonneg:
  fixes A :: int
  assumes "0 \<le> A"
  shows "0 \<le> 3 * A + int c"
  using assms by linarith

lemma pixel_index_below:
  fixes A B :: int
  assumes "A + 1 \<le> B" "c < (3::nat)"
  shows "3 * A + int c < B * 3"
  using assms by linarith

lemma kernel_indices_forms:
  assumes "i \<in> set (kernel_indices width height blockDim t)"
  shows "sint (thread_x blockDim t) < sint width \<and> sint (thread_y blockDim t) < sint height \<and>
         (\<exists>c<3. i = 3 * (thread_y blockDim t * width + thread_x blockDim t) + of_nat c)"
proof -
  have g: "sint (thread_x blockDim t) < sint width \<and> sint (thread_y blockDim t) < sint height"
    using assms kernel_indices_guard [of width height blockDim t] by fastforce
  then have "i = 3 * (thread_y blockDim t * width + thread_x blockDim t) + of_nat 0
      \<or> i = 3 * (thread_y blockDim t * width + thread_x blockDim t) + of_nat 1
      \<or> i = 3 * (thread_y blockDim t * width + thread_x blockDim t) + of_nat 2"
    using assms by (auto simp: kernel_indices_def Let_def word_sless_alt)
  then have "\<exists>c<3. i = 3 * (thread_y blockDim t * width + thread_x blockDim t) + of_nat c"
  proof (elim disjE)
    assume "i = 3 * (thread_y blockDim t * width + thread_x blockDim t) + of_nat 0"
    then show ?thesis by (intro exI [of _ "0::nat"] conjI) simp_all
  next
    assume "i = 3 * (thread_y blockDim t * width + thread_x blockDim t) + of_nat 1"
    then show ?thesis by (intro exI [of _ "1::nat"] conjI) simp_all
  next
    assume "i = 3 * (thread_y blockDim t * width + thread_x blockDim t) + of_nat 2"
    then show ?thesis by (intro exI [of _ "2::nat"] conjI) simp_all
  qed
  with g show ?thesis by simp
qed

lemma kernel_index_value:
  assumes "0 < sint width" "0 < sint height"
    and "t \<in> set (grid_threads (dimGrid width height) dimBlock)"
    and "i \<in> set (kernel_indices width height dimBlock t)"
    and "sint width * sint height * 3 < 2147483648"
  shows "\<exists>c<3. sint i = 3 * (sint (thread_y dimBlock t) * sint width + sint (thread_x dimBlock t)) + int c"
    and "0 \<le> sint i" and "sint i < sint width * sint height * 3"
proof -
  let ?x = "thread_x dimBlock t" and ?y = "thread_y dimBlock t"
  from assms(1-3) obtain bx "by" tx ty where
    c: "sint ?x = int (bx * 16 + tx)" "sint ?y = int (by * 16 + ty)"
    by (rule grid_threadE)
  have x0: "0 \<le> sint ?x" and y0: "0 \<le> sint ?y" using c by simp_all
  from kernel_indices_forms [OF assms(4)] obtain k where
    g: "sint ?x < sint width" "sint ?y < sint height"
    and k: "k < 3" "i = 3 * (?y * width + ?x) + of_nat k" by blast
  have v: "sint i = 3 * (sint ?y * sint width + sint ?x) + int k"
    unfolding k(2) by (rule index_sint [OF x0 g(1) y0 g(2) assms(5) k(1)])
  then show "\<exists>c<3. sint i = 3 * (sint ?y * sint width + sint ?x) + int c"
    using k(1) by blast
  note b = pixel_bound [OF x0 g(1) y0 g(2)]
  show "0 \<le> sint i" unfolding v by (rule pixel_index_nonneg [OF b(1)])
  show "sint i < sint width * sint height * 3"
    unfolding v by (rule pixel_index_below [OF b(2) k(1)])
qed

lemma thread_in_grid_2_2:
  "(0, 0, 5, 0) \<in> set (grid_threads (dimGrid 2 2) dimBlock)"
  "(0, 0, 1, 1) \<in> set (grid_threads (dimGrid 2 2) dimBlock)"
  by (simp_all add: set_grid_threads dimGrid_def dimBlock_def)

section \<open>What one launch writes\<close>
















section \<open>The copy of the image\<close>

lemma copy_list_Nil: "copy_list inp [] out = out"
  by (simp add: copy_list_def)

lemma copy_list_Cons:
  "copy_list inp (i # is) out = copy_list inp is (out[nat (sint i) := inp ! nat (sint i)])"
  by (simp add: copy_list_def)

lemma copy_list_append:
  "copy_list inp (xs @ ys) out = copy_list inp ys (copy_list inp xs out)"
  by (simp add: copy_list_def)

lemma length_copy_list: "length (copy_list inp is out) = length out"
  by (induction "is" arbitrary: out) (simp_all add: copy_list_Nil copy_list_Cons)



lemma copy_byte_effect:
  assumes "map_of m p = Some inp" "map_of m q = Some out" "p \<noteq> q"
    and "0 \<le> sint i" "nat (sint i) < length inp" "length out = length inp"
  shows "\<exists>m'. copy_byte p q i m = Some m' \<and>
           map_of m' = (map_of m)(q \<mapsto> out[nat (sint i) := inp ! nat (sint i)])"
  using assms by (simp add: copy_byte_def dev_read_def dev_write_def update_conv')

lemma run_copy_bytes:
  assumes "map_of m p = Some inp" "map_of m q = Some out" "p \<noteq> q" "length out = length inp"
    and "\<forall>i \<in> set is. 0 \<le> sint i \<and> nat (sint i) < length inp"
  shows "\<exists>m'. run_all (copy_byte p q) is m = Some m' \<and>
           map_of m' = (map_of m)(q \<mapsto> copy_list inp is out)"
  using assms
proof (induction "is" arbitrary: m out)
  case Nil
  then show ?case by (simp add: copy_list_Nil map_upd_triv)
next
  case (Cons i "is")
  let ?out = "out[nat (sint i) := inp ! nat (sint i)]"
  from Cons.prems obtain m1 where
    m1: "copy_byte p q i m = Some m1" "map_of m1 = (map_of m)(q \<mapsto> ?out)"
    using copy_byte_effect [of m p inp q out i] by auto
  have "map_of m1 p = Some inp" "map_of m1 q = Some ?out" "length ?out = length inp"
    using m1(2) Cons.prems by simp_all
  moreover have "\<forall>i \<in> set is. 0 \<le> sint i \<and> nat (sint i) < length inp"
    using Cons.prems(5) by simp
  ultimately have "\<exists>m'. run_all (copy_byte p q) is m1 = Some m' \<and>
      map_of m' = (map_of m1)(q \<mapsto> copy_list inp is ?out)"
    using Cons.prems(3) by (intro Cons.IH)
  then obtain m' where r: "run_all (copy_byte p q) is m1 = Some m'"
    "map_of m' = (map_of m1)(q \<mapsto> copy_list inp is ?out)" by blast
  have "map_of m' = (map_of m)(q \<mapsto> copy_list inp (i # is) out)"
    unfolding r(2) m1(2) copy_list_Cons by (rule fun_upd_upd)
  moreover have "run_all (copy_byte p q) (i # is) m = Some m'"
    using m1(1) r(1) by simp
  ultimately show ?case by blast
qed

lemma run_kernel_threads:
  assumes "map_of m p = Some inp" "map_of m q = Some out" "p \<noteq> q" "length out = length inp"
    and "\<forall>t \<in> set ts. \<forall>i \<in> set (kernel_indices w h b t). 0 \<le> sint i \<and> nat (sint i) < length inp"
  shows "\<exists>m'. run_all (processImageKernel p q w h b) ts m = Some m' \<and>
           map_of m' = (map_of m)(q \<mapsto> copy_list inp (concat (map (kernel_indices w h b) ts)) out)"
  using assms
proof (induction ts arbitrary: m out)
  case Nil
  then show ?case by (simp add: copy_list_Nil map_upd_triv)
next
  case (Cons t ts)
  let ?out = "copy_list inp (kernel_indices w h b t) out"
  have "\<forall>i \<in> set (kernel_indices w h b t). 0 \<le> sint i \<and> nat (sint i) < length inp"
    using Cons.prems(5) by simp
  from run_copy_bytes [OF Cons.prems(1-4) this] obtain m1 where
    m1: "processImageKernel p q w h b t m = Some m1" "map_of m1 = (map_of m)(q \<mapsto> ?out)"
    by (auto simp: processImageKernel_run_all)
  have "map_of m1 p = Some inp" "map_of m1 q = Some ?out" "length ?out = length inp"
    using m1(2) Cons.prems by (simp_all add: length_copy_list)
  moreover have "\<forall>t \<in> set ts. \<forall>i \<in> set (kernel_indices w h b t).
      0 \<le> sint i \<and> nat (sint i) < length inp"
    using Cons.prems(5) by simp
  ultimately have "\<exists>m'. run_all (processImageKernel p q w h b) ts m1 = Some m' \<and>
      map_of m' = (map_of m1)(q \<mapsto> copy_list inp (concat (map (kernel_indices w h b) ts)) ?out)"
    using Cons.prems(3) by (intro Cons.IH)
  then obtain m' where r: "run_all (processImageKernel p q w h b) ts m1 = Some m'"
    "map_of m' = (map_of m1)(q \<mapsto> copy_list inp (concat (map (kernel_indices w h b) ts)) ?out)"
    by blast
  have "copy_list inp (concat (map (kernel_indices w h b) (t # ts))) out =
      copy_list inp (concat (map (kernel_indices w h b) ts)) ?out"
    by (simp add: copy_list_append)
  then have "map_of m' = (map_of m)(q \<mapsto> copy_list inp (concat (map (kernel_indices w h b) (t # ts))) out)"
    unfolding r(2) m1(2) by (simp only: fun_upd_upd)
  moreover have "run_all (processImageKernel p q w h b) (t # ts) m = Some m'"
    using m1(1) r(1) by simp
  ultimately show ?case by blast
qed





















section \<open>The claims\<close>

text \<open>
  C10. The byte count given to both allocations and both copies is \<open>byte_count\<close>, the
  \<^verbatim>\<open>int\<close> expression \<^verbatim>\<open>width * height * 3\<close> converted to \<^verbatim>\<open>size_t\<close>. Whenever the
  mathematical product \<open>width * height * 3\<close> is at least \<open>2 ^ 31\<close>, the \<^verbatim>\<open>int\<close> value
  agrees with it only modulo \<open>2 ^ 32\<close> and differs from it, and the count that is passed
  differs from the mathematical size of the buffer.
\<close>

theorem byte_count_wraps_mod_2_32:
  assumes "2147483648 \<le> sint width * sint height * 3"
  shows "map call_size (issued d (snd (processImage input output width height uninit (hm, d)))) =
           [Some (byte_count width height), Some (byte_count width height),
            Some (byte_count width height), None, Some (byte_count width height), None, None]
       \<and> byte_count width height = to_size_t (width * height * 3)
       \<and> sint (width * height * 3) mod 4294967296 = (sint width * sint height * 3) mod 4294967296
       \<and> sint (width * height * 3) \<noteq> sint width * sint height * 3
       \<and> int (byte_count width height) \<noteq> sint width * sint height * 3"
proof -
  obtain d_input d_output where
    "issued d (snd (processImage input output width height uninit (hm, d))) =
       [Malloc (byte_count width height),
        Malloc (byte_count width height),
        Memcpy d_input input (byte_count width height) cudaMemcpyHostToDevice,
        Launch (dimGrid width height) dimBlock d_input d_output width height,
        Memcpy output d_output (byte_count width height) cudaMemcpyDeviceToHost,
        Free d_input,
        Free d_output]"
    by (rule processImage_issued)
  then have "map call_size (issued d (snd (processImage input output width height uninit (hm, d)))) =
           [Some (byte_count width height), Some (byte_count width height),
            Some (byte_count width height), None, Some (byte_count width height), None, None]"
    by simp
  then show ?thesis
    using sint_product_mod [of width height] sint_product_overflow [OF assms]
      byte_count_overflow [OF assms]
    by (simp add: byte_count_def)
qed


theorem byte_count_wraps_mod_2_32_witness:
  "2147483648 \<le> sint (32768 :: cint) * sint (32768 :: cint) * 3
   \<and> sint (32768 * 32768 * 3 :: cint) \<noteq> sint (32768 :: cint) * sint (32768 :: cint) * 3
   \<and> int (byte_count 32768 32768) \<noteq> sint (32768 :: cint) * sint (32768 :: cint) * 3"
proof -
  have h: "2147483648 \<le> sint (32768 :: cint) * sint (32768 :: cint) * 3" by simp
  show ?thesis
    using h byte_count_wraps_mod_2_32 [OF h, where d = idle_device and hm = blank_host] by blast
qed

text \<open>
  C6. No \<^verbatim>\<open>cudaError_t\<close> is looked at. On every device, whatever calls fail on it, one
  dispatch makes the same seven runtime calls in the same order, each later call with
  whatever the pointer variables hold at that point; the function has no result through
  which a failure could be reported.
\<close>

theorem processImage_ignores_every_error:
  "\<exists>d_input d_output.
     issued d (snd (processImage input output width height uninit (hm, d))) =
       [Malloc (byte_count width height),
        Malloc (byte_count width height),
        Memcpy d_input input (byte_count width height) cudaMemcpyHostToDevice,
        Launch (dimGrid width height) dimBlock d_input d_output width height,
        Memcpy output d_output (byte_count width height) cudaMemcpyDeviceToHost,
        Free d_input,
        Free d_output]"
proof -
  obtain d_input d_output where
    "issued d (snd (processImage input output width height uninit (hm, d))) =
       [Malloc (byte_count width height),
        Malloc (byte_count width height),
        Memcpy d_input input (byte_count width height) cudaMemcpyHostToDevice,
        Launch (dimGrid width height) dimBlock d_input d_output width height,
        Memcpy output d_output (byte_count width height) cudaMemcpyDeviceToHost,
        Free d_input,
        Free d_output]"
    by (rule processImage_issued)
  then show ?thesis by blast
qed


theorem processImage_ignores_every_error_witness:
  "\<exists>d_input d_output.
     issued failing_device (snd (processImage 100 200 2 2 (7, 9) (blank_host, failing_device))) =
       [Malloc (byte_count 2 2),
        Malloc (byte_count 2 2),
        Memcpy d_input 100 (byte_count 2 2) cudaMemcpyHostToDevice,
        Launch (dimGrid 2 2) dimBlock d_input d_output 2 2,
        Memcpy 200 d_output (byte_count 2 2) cudaMemcpyDeviceToHost,
        Free d_input,
        Free d_output]"
  by (rule processImage_ignores_every_error)

text \<open>
  The run on the device where every call fails: both allocations fail, the copies and
  the launch are made all the same with the uninitialised pointers \<open>7\<close> and \<open>9\<close>, and both
  pointers are passed to \<^verbatim>\<open>cudaFree\<close>.
\<close>

lemma processImage_all_calls_fail:
  "calls (snd (processImage 100 200 2 2 (7, 9) (blank_host, failing_device))) =
     [(Malloc 12, cudaErrorMemoryAllocation),
      (Malloc 12, cudaErrorMemoryAllocation),
      (Memcpy 7 100 12 cudaMemcpyHostToDevice, cudaErrorInvalidValue),
      (Launch (1, 1) (16, 16) 7 9 2 2, cudaErrorInvalidConfiguration),
      (Memcpy 200 9 12 cudaMemcpyDeviceToHost, cudaErrorInvalidValue),
      (Free 7, cudaErrorInvalidValue),
      (Free 9, cudaErrorInvalidValue)]"
  by code_simp

text \<open>
  C9, as stated, fails: with \<open>width = 0\<close> and \<open>height = 0\<close> the call is not rejected; both
  device allocations are attempted (and succeed), and the other five calls follow.
\<close>

theorem processImage_zero_dimensions_counterexample:
  "calls (snd (processImage 100 200 0 0 (0, 0) (blank_host, idle_device))) =
     [(Malloc 0, cudaSuccess),
      (Malloc 0, cudaSuccess),
      (Memcpy 1 100 0 cudaMemcpyHostToDevice, cudaSuccess),
      (Launch (0, 0) (16, 16) 1 2 0 0, cudaErrorInvalidConfiguration),
      (Memcpy 200 2 0 cudaMemcpyDeviceToHost, cudaSuccess),
      (Free 1, cudaSuccess),
      (Free 2, cudaSuccess)]"
  by code_simp

text \<open>
  C9, amended. \<open>processImage\<close> validates nothing: for \<open>width \<le> 0\<close> or \<open>height \<le> 0\<close> its
  first two runtime calls are the two device allocations, all seven calls are made, and
  for \<open>width = 0\<close> or \<open>height = 0\<close> the allocations are of 0 bytes.
\<close>

theorem processImage_validates_nothing:
  assumes "sint width \<le> 0 \<or> sint height \<le> 0"
  shows "take 2 (issued d (snd (processImage input output width height uninit (hm, d)))) =
           [Malloc (byte_count width height), Malloc (byte_count width height)]
       \<and> length (issued d (snd (processImage input output width height uninit (hm, d)))) = 7
       \<and> (width = 0 \<or> height = 0 \<longrightarrow> byte_count width height = 0)"
proof -
  obtain d_input d_output where
    "issued d (snd (processImage input output width height uninit (hm, d))) =
       [Malloc (byte_count width height),
        Malloc (byte_count width height),
        Memcpy d_input input (byte_count width height) cudaMemcpyHostToDevice,
        Launch (dimGrid width height) dimBlock d_input d_output width height,
        Memcpy output d_output (byte_count width height) cudaMemcpyDeviceToHost,
        Free d_input,
        Free d_output]"
    by (rule processImage_issued)
  then show ?thesis using byte_count_zero [of width height] by simp
qed

theorem processImage_validates_nothing_witness:
  "(sint (0 :: cint) \<le> 0 \<or> sint (0 :: cint) \<le> 0)
   \<and> take 2 (issued idle_device (snd (processImage 100 200 0 0 (0, 0) (blank_host, idle_device)))) =
         [Malloc 0, Malloc 0]
   \<and> length (issued idle_device (snd (processImage 100 200 0 0 (0, 0) (blank_host, idle_device)))) = 7"
proof -
  have h: "sint (0 :: cint) \<le> 0 \<or> sint (0 :: cint) \<le> 0" by simp
  show ?thesis
    using h processImage_validates_nothing [OF h, where d = idle_device and hm = blank_host]
    by (simp add: byte_count_zero)
qed


text \<open>
  C5, as stated, fails on a failure path. On the device with room for one buffer only
  the first allocation succeeds and the second fails; the kernel then writes through the
  uninitialised \<open>d_output\<close>, which poisons the device, and the \<^verbatim>\<open>cudaFree\<close> of the first
  buffer fails: that buffer is still allocated when \<open>processImage\<close> returns.
\<close>

theorem processImage_leaks_counterexample:
  "allocs tight_device = []
   \<and> allocs (snd (processImage 100 200 2 2 (7, 9) (blank_host, tight_device))) =
       [(1, [0, 0, 0, 0, 0, 0, 0, 0, 0, 0, 0, 0])]
   \<and> calls (snd (processImage 100 200 2 2 (7, 9) (blank_host, tight_device))) =
       [(Malloc 12, cudaSuccess),
        (Malloc 12, cudaErrorMemoryAllocation),
        (Memcpy 1 100 12 cudaMemcpyHostToDevice, cudaSuccess),
        (Launch (1, 1) (16, 16) 1 9 2 2, cudaErrorIllegalAddress),
        (Memcpy 200 9 12 cudaMemcpyDeviceToHost, cudaErrorInvalidValue),
        (Free 1, cudaErrorInvalidValue),
        (Free 9, cudaErrorInvalidValue)]"
  by code_simp

text \<open>
  C5, amended. \<open>processImage\<close> has one exit, and its last two runtime calls are the
  \<^verbatim>\<open>cudaFree\<close> of \<open>d_input\<close> and of \<open>d_output\<close>, whatever happened before. Their results are
  not looked at. Whenever both return \<^verbatim>\<open>cudaSuccess\<close>, no allocation made by the dispatch
  is live when it returns: every base address live after the call was live before it.
\<close>

theorem processImage_releases_when_cudaFree_succeeds:
  "length (issued d (snd (processImage input output width height uninit (hm, d)))) = 7
   \<and> (\<exists>d_input d_output.
         drop 5 (issued d (snd (processImage input output width height uninit (hm, d)))) =
           [Free d_input, Free d_output])
   \<and> (results d (snd (processImage input output width height uninit (hm, d))) ! 5 = cudaSuccess \<and>
       results d (snd (processImage input output width height uninit (hm, d))) ! 6 = cudaSuccess \<longrightarrow>
         live (snd (processImage input output width height uninit (hm, d))) \<subseteq> live d)"
proof -
  obtain d_input d_output where
    i: "issued d (snd (processImage input output width height uninit (hm, d))) =
       [Malloc (byte_count width height),
        Malloc (byte_count width height),
        Memcpy d_input input (byte_count width height) cudaMemcpyHostToDevice,
        Launch (dimGrid width height) dimBlock d_input d_output width height,
        Memcpy output d_output (byte_count width height) cudaMemcpyDeviceToHost,
        Free d_input,
        Free d_output]"
    by (rule processImage_issued)
  have "drop 5 (issued d (snd (processImage input output width height uninit (hm, d)))) =
      [Free d_input, Free d_output]"
    unfolding i by simp
  then have "\<exists>d_input d_output.
         drop 5 (issued d (snd (processImage input output width height uninit (hm, d)))) =
           [Free d_input, Free d_output]" by blast
  moreover have "length (issued d (snd (processImage input output width height uninit (hm, d)))) = 7"
    unfolding i by simp
  ultimately show ?thesis using processImage_live_subset by blast
qed

theorem processImage_releases_when_cudaFree_succeeds_witness:
  "results idle_device (snd (processImage 100 200 2 2 (0, 0) (blank_host, idle_device))) ! 5 = cudaSuccess
   \<and> results idle_device (snd (processImage 100 200 2 2 (0, 0) (blank_host, idle_device))) ! 6 = cudaSuccess
   \<and> live (snd (processImage 100 200 2 2 (0, 0) (blank_host, idle_device))) \<subseteq> live idle_device"
proof -
  have h: "results idle_device (snd (processImage 100 200 2 2 (0, 0) (blank_host, idle_device))) ! 5 = cudaSuccess"
    "results idle_device (snd (processImage 100 200 2 2 (0, 0) (blank_host, idle_device))) ! 6 = cudaSuccess"
    by (simp_all add: processImage_2x2_results)
  show ?thesis
    using h processImage_releases_when_cudaFree_succeeds
      [of idle_device 100 200 2 2 "(0, 0)" blank_host]
    by blast
qed

text \<open>
  C7, as stated, fails on a failure path. On the full device both allocations fail, and
  the uninitialised \<open>d_input\<close> holds 7, the address of an allocation of another owner: the
  copy to the device overwrites that allocation, and the faulting kernel poisons the
  device. Both changes outlive the call.
\<close>

theorem processImage_device_state_counterexample:
  "allocs full_device = [(7, [5, 5, 5, 5, 5, 5, 5, 5, 5, 5, 5, 5])]
   \<and> poisoned full_device = False
   \<and> allocs (snd (processImage 100 200 2 2 (7, 9) (blank_host, full_device))) =
       [(7, [0, 0, 0, 0, 0, 0, 0, 0, 0, 0, 0, 0])]
   \<and> poisoned (snd (processImage 100 200 2 2 (7, 9) (blank_host, full_device))) = True"
  by code_simp

text \<open>
  C7, amended. A dispatch changes host memory only inside the output buffer, so an input
  buffer that does not overlap it is unchanged. \<open>processImage\<close> has no state of its own;
  and whenever both \<^verbatim>\<open>cudaMalloc\<close> calls and both \<^verbatim>\<open>cudaFree\<close> calls return
  \<^verbatim>\<open>cudaSuccess\<close>, the device after the call is the device before it, but for the log of
  the calls.
\<close>

theorem processImage_writes_only_output:
  "(\<forall>a. \<not> (output \<le> a \<and> a < output + byte_count width height) \<longrightarrow>
        fst (processImage input output width height uninit (hm, d)) a = hm a)
   \<and> (input + byte_count width height \<le> output \<or> output + byte_count width height \<le> input \<longrightarrow>
        host_read (fst (processImage input output width height uninit (hm, d))) input
            (byte_count width height) =
          host_read hm input (byte_count width height))
   \<and> (results d (snd (processImage input output width height uninit (hm, d))) ! 0 = cudaSuccess \<and>
       results d (snd (processImage input output width height uninit (hm, d))) ! 1 = cudaSuccess \<and>
       results d (snd (processImage input output width height uninit (hm, d))) ! 5 = cudaSuccess \<and>
       results d (snd (processImage input output width height uninit (hm, d))) ! 6 = cudaSuccess \<longrightarrow>
        snd (processImage input output width height uninit (hm, d)) =
          d\<lparr>calls := calls (snd (processImage input output width height uninit (hm, d)))\<rparr>)"
proof (intro conjI allI impI)
  fix a assume "\<not> (output \<le> a \<and> a < output + byte_count width height)"
  then show "fst (processImage input output width height uninit (hm, d)) a = hm a"
    by (rule processImage_host_frame)
next
  assume "input + byte_count width height \<le> output \<or> output + byte_count width height \<le> input"
  then have "\<forall>a \<in> set [input ..< input + byte_count width height].
      fst (processImage input output width height uninit (hm, d)) a = hm a"
    by (auto intro!: processImage_host_frame)
  then show "host_read (fst (processImage input output width height uninit (hm, d))) input
            (byte_count width height) =
          host_read hm input (byte_count width height)"
    unfolding host_read_def by (simp only: map_eq_conv)
next
  assume "results d (snd (processImage input output width height uninit (hm, d))) ! 0 = cudaSuccess \<and>
       results d (snd (processImage input output width height uninit (hm, d))) ! 1 = cudaSuccess \<and>
       results d (snd (processImage input output width height uninit (hm, d))) ! 5 = cudaSuccess \<and>
       results d (snd (processImage input output width height uninit (hm, d))) ! 6 = cudaSuccess"
  then show "snd (processImage input output width height uninit (hm, d)) =
          d\<lparr>calls := calls (snd (processImage input output width height uninit (hm, d)))\<rparr>"
    using processImage_device_frame by blast
qed

theorem processImage_writes_only_output_witness:
  "(100 + byte_count 2 2 \<le> 200 \<or> 200 + byte_count 2 2 \<le> (100 :: nat))
   \<and> results idle_device (snd (processImage 100 200 2 2 (0, 0) (blank_host, idle_device))) ! 0 = cudaSuccess
   \<and> results idle_device (snd (processImage 100 200 2 2 (0, 0) (blank_host, idle_device))) ! 1 = cudaSuccess
   \<and> results idle_device (snd (processImage 100 200 2 2 (0, 0) (blank_host, idle_device))) ! 5 = cudaSuccess
   \<and> results idle_device (snd (processImage 100 200 2 2 (0, 0) (blank_host, idle_device))) ! 6 = cudaSuccess
   \<and> \<not> (200 \<le> (100 :: nat) \<and> (100 :: nat) < 200 + byte_count 2 2)
   \<and> fst (processImage 100 200 2 2 (0, 0) (blank_host, idle_device)) 100 = blank_host 100
   \<and> host_read (fst (processImage 100 200 2 2 (0, 0) (blank_host, idle_device))) 100
          (byte_count 2 2) =
        host_read blank_host 100 (byte_count 2 2)
   \<and> snd (processImage 100 200 2 2 (0, 0) (blank_host, idle_device)) =
        idle_device\<lparr>calls := calls (snd (processImage 100 200 2 2 (0, 0) (blank_host, idle_device)))\<rparr>"
proof -
  have h: "results idle_device (snd (processImage 100 200 2 2 (0, 0) (blank_host, idle_device))) ! 0 = cudaSuccess"
    "results idle_device (snd (processImage 100 200 2 2 (0, 0) (blank_host, idle_device))) ! 1 = cudaSuccess"
    "results idle_device (snd (processImage 100 200 2 2 (0, 0) (blank_host, idle_device))) ! 5 = cudaSuccess"
    "results idle_device (snd (processImage 100 200 2 2 (0, 0) (blank_host, idle_device))) ! 6 = cudaSuccess"
    by (simp_all add: processImage_2x2_results)
  have b: "100 + byte_count 2 2 \<le> 200" "\<not> (200 \<le> (100 :: nat) \<and> (100 :: nat) < 200 + byte_count 2 2)"
    by (simp_all add: byte_count_2_2)
  note t = processImage_writes_only_output
    [of 200 2 2 100 "(0, 0)" blank_host idle_device]
  from t b(2) have 1: "fst (processImage 100 200 2 2 (0, 0) (blank_host, idle_device)) 100 = blank_host 100"
    by blast
  from t b(1) have 2: "host_read (fst (processImage 100 200 2 2 (0, 0) (blank_host, idle_device))) 100
          (byte_count 2 2) = host_read blank_host 100 (byte_count 2 2)"
    by blast
  from t h have 3: "snd (processImage 100 200 2 2 (0, 0) (blank_host, idle_device)) =
        idle_device\<lparr>calls := calls (snd (processImage 100 200 2 2 (0, 0) (blank_host, idle_device)))\<rparr>"
    by blast
  show ?thesis using h b 1 2 3 by blast
qed



text \<open>The image of 17 by 3 pixels: 512 threads are launched and 51 of them copy a pixel.\<close>

lemma grid_17_3_transforms_51_pixels:
  "length (filter (\<lambda>t. kernel_indices 17 3 dimBlock t \<noteq> [])
     (grid_threads (dimGrid 17 3) dimBlock)) = 51
   \<and> length (grid_threads (dimGrid 17 3) dimBlock) = 512"
  by code_simp

text \<open>The image of 2 by 2 pixels: the twelve copies of its launch, in order.\<close>

lemma launch_indices_2x2:
  "map sint (launch_indices 2 2) = [0, 1, 2, 3, 4, 5, 6, 7, 8, 9, 10, 11]"
  by code_simp

text \<open>
  C3. A thread of the launch grid whose \<open>x\<close> is at least \<open>width\<close> or whose \<open>y\<close> is at
  least \<open>height\<close> accesses no memory: the kernel does what running the copy over its index
  list does, and that list is empty. Every index a thread does access is below
  \<open>width * height * 3\<close>, and it is not negative when that product is representable as an
  \<^verbatim>\<open>int\<close>.
\<close>

theorem kernel_guard_keeps_indices_in_bounds:
  assumes "0 < sint width" "0 < sint height"
    and "t \<in> set (grid_threads (dimGrid width height) dimBlock)"
  shows "processImageKernel input output width height dimBlock t m =
           run_all (copy_byte input output) (kernel_indices width height dimBlock t) m
       \<and> (sint width \<le> sint (thread_x dimBlock t) \<or> sint height \<le> sint (thread_y dimBlock t) \<longrightarrow>
            kernel_indices width height dimBlock t = [] \<and>
            processImageKernel input output width height dimBlock t m = Some m)
       \<and> (\<forall>i \<in> set (kernel_indices width height dimBlock t). sint i < sint width * sint height * 3)
       \<and> (sint width * sint height * 3 < 2147483648 \<longrightarrow>
            (\<forall>i \<in> set (kernel_indices width height dimBlock t). 0 \<le> sint i))"
proof (intro conjI impI ballI)
  show "processImageKernel input output width height dimBlock t m =
           run_all (copy_byte input output) (kernel_indices width height dimBlock t) m"
    by (rule processImageKernel_run_all)
next
  assume "sint width \<le> sint (thread_x dimBlock t) \<or> sint height \<le> sint (thread_y dimBlock t)"
  then show "kernel_indices width height dimBlock t = []"
    using kernel_indices_guard [of width height dimBlock t] by linarith
  then show "processImageKernel input output width height dimBlock t m = Some m"
    by (simp add: processImageKernel_run_all)
next
  fix i assume i: "i \<in> set (kernel_indices width height dimBlock t)"
  show "sint i < sint width * sint height * 3"
  proof (cases "sint width * sint height * 3 < 2147483648")
    case True
    then show ?thesis by (rule kernel_index_value(3) [OF assms i])
  next
    case False
    then show ?thesis using sint32_range [of i] by linarith
  qed
next
  fix i assume "sint width * sint height * 3 < 2147483648"
    and "i \<in> set (kernel_indices width height dimBlock t)"
  then show "0 \<le> sint i" by (rule kernel_index_value(2) [OF assms, rotated 1])
qed

theorem kernel_guard_keeps_indices_in_bounds_witness:
  "0 < sint (2 :: cint)
   \<and> (0, 0, 5, 0) \<in> set (grid_threads (dimGrid 2 2) dimBlock)
   \<and> sint (2 :: cint) \<le> sint (thread_x dimBlock (0, 0, 5, 0))
   \<and> kernel_indices 2 2 dimBlock (0, 0, 5, 0) = []
   \<and> processImageKernel 1 2 2 2 dimBlock (0, 0, 5, 0) [] = Some []
   \<and> (0, 0, 1, 1) \<in> set (grid_threads (dimGrid 2 2) dimBlock)
   \<and> sint (2 :: cint) * sint (2 :: cint) * 3 < 2147483648
   \<and> (11 :: cint) \<in> set (kernel_indices 2 2 dimBlock (0, 0, 1, 1))
   \<and> 0 \<le> sint (11 :: cint)
   \<and> sint (11 :: cint) < sint (2 :: cint) * sint (2 :: cint) * 3"
proof -
  have h: "0 < sint (2 :: cint)" by simp
  have g: "sint (2 :: cint) \<le> sint (thread_x dimBlock (0, 0, 5, 0))"
    by (simp add: thread_x_def dimBlock_def)
  have n: "sint (2 :: cint) * sint (2 :: cint) * 3 < 2147483648" by simp
  have m: "(11 :: cint) \<in> set (kernel_indices 2 2 dimBlock (0, 0, 1, 1))"
    by (simp add: kernel_indices_def thread_x_def thread_y_def dimBlock_def word_sless_alt)
  from kernel_guard_keeps_indices_in_bounds [OF h h thread_in_grid_2_2(1), of 1 2 "[]"] g
  have a: "kernel_indices 2 2 dimBlock (0, 0, 5, 0) = []"
    "processImageKernel 1 2 2 2 dimBlock (0, 0, 5, 0) [] = Some []"
    by blast+
  from kernel_guard_keeps_indices_in_bounds [OF h h thread_in_grid_2_2(2), of 1 2 "[]"] n m
  have b: "sint (11 :: cint) < sint (2 :: cint) * sint (2 :: cint) * 3" "0 \<le> sint (11 :: cint)"
    by blast+
  show ?thesis
    using h g a n m b thread_in_grid_2_2 by blast
qed







end
